theory Spec2Isabelle
  imports Complex_Main
begin

section \<open>Alma: a value container with an append-only change history\<close>

text \<open>
  A shallow embedding of \<^verbatim>\<open>alma.py\<close>: the classes \<^verbatim>\<open>ChangeRecord\<close>, \<^verbatim>\<open>AlmaVar\<close> and
  \<^verbatim>\<open>AlmaRegistry\<close>. The embedding is sequential: the locks of the source are not
  modelled, every method runs to completion before the next one starts.
\<close>

subsection \<open>Python objects and \<^verbatim>\<open>copy.deepcopy\<close>\<close>

text \<open>
  A Python value is a reference to an object. The store is a list of objects, an
  address is a position in it, and allocation appends. An object carries its contents
  and whether \<^verbatim>\<open>copy.deepcopy\<close> succeeds on it (it raises on objects that hold a lock,
  a generator, an open file). Value equality of two references is equality of the
  contents they point to.
\<close>

type_synonym addr = nat

datatype 'c pyobj = PyObj (copyable: bool) (contents: 'c)

type_synonym 'c heap = "'c pyobj list"

text \<open>\<^verbatim>\<open>copy.deepcopy(value)\<close>: a fresh object with the same contents, or \<open>None\<close> when it raises.\<close>

definition deepcopy :: "'c heap \<Rightarrow> addr \<Rightarrow> ('c heap \<times> addr) option" where
  "deepcopy h a = (if copyable (h ! a) then Some (h @ [h ! a], length h) else None)"


subsection \<open>Exceptions\<close>

text \<open>
  \<open>AlmaError\<close>, \<open>RollbackError\<close> and \<open>FrozenError\<close> are the classes of the source, each
  with its message. \<open>ValueError\<close> is the exception a validator raises to reject a value,
  with the validator's message. \<open>IndexError\<close> is Python's, for \<^verbatim>\<open>self._history[-1]\<close> on an
  empty list.
\<close>

datatype error =
    AlmaError string
  | RollbackError string
  | FrozenError string
  | ValueError string
  | IndexError

subsection \<open>Formatting\<close>

text \<open>The decimal rendering of an integer inside an f-string.\<close>

fun digits :: "nat \<Rightarrow> string" where
  "digits n =
     (if n < 10 then [''0123456789'' ! n]
      else digits (n div 10) @ [''0123456789'' ! (n mod 10)])"

declare digits.simps [simp del]

definition str :: "int \<Rightarrow> string" where
  "str i = (if i < 0 then CHR ''-'' # digits (nat (- i)) else digits (nat i))"

definition quoted :: "string \<Rightarrow> string" where
  "quoted s = [CHR 0x27] @ s @ [CHR 0x27]"

subsection \<open>Data model\<close>

text \<open>\<^verbatim>\<open>ChangeRecord\<close>; the attribute \<^verbatim>\<open>value\<close> is the field \<open>val\<close>, the timestamp is in
  microseconds, the resolution of \<^verbatim>\<open>datetime\<close>.\<close>

record ChangeRecord =
  index :: int
  val :: addr
  timestamp :: int
  label :: "string option"

text \<open>
  A validator sees the contents of the candidate value and either returns (\<open>None\<close>) or
  raises with a message. A listener sees the store, the history of the variable and the
  new record, and either returns or raises. Neither calls back into the variable nor
  assigns to an object of the store.
\<close>

datatype outcome = Returned | Raised

type_synonym 'c validator = "'c \<Rightarrow> string option"

type_synonym 'c listener = "'c heap \<Rightarrow> ChangeRecord list \<Rightarrow> ChangeRecord \<Rightarrow> outcome"

text \<open>\<^verbatim>\<open>AlmaVar\<close>: the field \<open>var_x\<close> is the attribute \<^verbatim>\<open>self._x\<close>.\<close>

record 'c AlmaVar =
  var_name :: string
  var_deep_copy :: bool
  var_validators :: "'c validator list"
  var_listeners :: "'c listener list"
  var_frozen :: bool
  var_history :: "ChangeRecord list"

text \<open>
  What a method call can change: the store, the variable, and the calls made to
  validators and listeners so far, each with its result.
\<close>

datatype event = Validated "string option" | Notified ChangeRecord outcome

record 'c state =
  heap :: "'c heap"
  self :: "'c AlmaVar"
  trace :: "event list"

subsection \<open>\<^verbatim>\<open>AlmaVar\<close>\<close>

text \<open>\<^verbatim>\<open>_snapshot\<close>: a deep copy when the policy asks for one and the copy succeeds, the
  value itself otherwise.\<close>

definition snapshot :: "bool \<Rightarrow> 'c heap \<Rightarrow> addr \<Rightarrow> 'c heap \<times> addr" where
  "snapshot deep_copy h x =
     (if deep_copy then
        (case deepcopy h x of Some copied \<Rightarrow> copied | None \<Rightarrow> (h, x))
      else (h, x))"

text \<open>\<^verbatim>\<open>__init__\<close>; \<open>now\<close> is the reading of the clock.\<close>

definition init ::
  "string \<Rightarrow> addr \<Rightarrow> bool \<Rightarrow> 'c validator list option \<Rightarrow> 'c listener list option \<Rightarrow> int
     \<Rightarrow> 'c heap \<Rightarrow> 'c heap \<times> 'c AlmaVar" where
  "init name initial_value deep_copy validators on_change now h =
     (let (h', snap) = snapshot deep_copy h initial_value;
          r = \<lparr>index = 0, val = snap, timestamp = now, label = Some ''initial''\<rparr>
      in (h', \<lparr>var_name = name,
               var_deep_copy = deep_copy,
               var_validators = (case validators of None \<Rightarrow> [] | Some vs \<Rightarrow> vs),
               var_listeners = (case on_change of None \<Rightarrow> [] | Some ls \<Rightarrow> ls),
               var_frozen = False,
               var_history = [r]\<rparr>))"

definition get :: "'c AlmaVar \<Rightarrow> error + addr" where
  "get v = (case var_history v of [] \<Rightarrow> Inl IndexError | _ # _ \<Rightarrow> Inr (val (last (var_history v))))"

definition history :: "'c AlmaVar \<Rightarrow> ChangeRecord list" where
  "history v = var_history v"

definition last_change :: "'c AlmaVar \<Rightarrow> error + ChangeRecord" where
  "last_change v = (case var_history v of [] \<Rightarrow> Inl IndexError | _ # _ \<Rightarrow> Inr (last (var_history v)))"

definition is_frozen :: "'c AlmaVar \<Rightarrow> bool" where
  "is_frozen v = var_frozen v"

text \<open>The loop over the validators: the first one that raises ends it.\<close>

fun run_validators :: "'c validator list \<Rightarrow> 'c \<Rightarrow> event list \<times> string option" where
  "run_validators [] c = ([], None)"
| "run_validators (validate # rest) c =
     (case validate c of
        Some msg \<Rightarrow> ([Validated (Some msg)], Some msg)
      | None \<Rightarrow> (let (evs, res) = run_validators rest c in (Validated None # evs, res)))"

text \<open>The loop over the listeners: \<^verbatim>\<open>except Exception: pass\<close> goes on to the next one.\<close>

fun fire_listeners :: "'c listener list \<Rightarrow> ChangeRecord \<Rightarrow> 'c state \<Rightarrow> 'c state" where
  "fire_listeners [] r s = s"
| "fire_listeners (listener # rest) r s =
     (let res = listener (heap s) (var_history (self s)) r;
          s1 = s\<lparr>trace := trace s @ [Notified r res]\<rparr>
      in (case res of
            Raised \<Rightarrow> fire_listeners rest r s1
          | Returned \<Rightarrow> fire_listeners rest r s1))"

definition set_var :: "addr \<Rightarrow> string option \<Rightarrow> int \<Rightarrow> 'c state \<Rightarrow> (error + unit) \<times> 'c state" where
  "set_var x lbl now s =
     (let v = self s in
      if var_frozen v then
        (Inl (FrozenError (''Variable '' @ quoted (var_name v) @ '' is frozen and cannot be mutated.'')), s)
      else
        (case run_validators (var_validators v) (contents (heap s ! x)) of
           (evs, Some msg) \<Rightarrow> (Inl (ValueError msg), s\<lparr>trace := trace s @ evs\<rparr>)
         | (evs, None) \<Rightarrow>
             (let (h', snap) = snapshot (var_deep_copy v) (heap s) x;
                  r = \<lparr>index = int (length (var_history v)), val = snap,
                       timestamp = now, label = lbl\<rparr>;
                  v' = v\<lparr>var_history := var_history v @ [r]\<rparr>;
                  s' = s\<lparr>heap := h', self := v', trace := trace s @ evs\<rparr>
              in (Inr (), fire_listeners (var_listeners v') r s'))))"

text \<open>\<^verbatim>\<open>label or f"rollback to index {index}"\<close>: an empty label counts as none.\<close>

definition rollback_label :: "int \<Rightarrow> string option \<Rightarrow> string" where
  "rollback_label idx lbl =
     (case lbl of
        None \<Rightarrow> ''rollback to index '' @ str idx
      | Some l \<Rightarrow> (if l = [] then ''rollback to index '' @ str idx else l))"

definition rollback :: "int \<Rightarrow> string option \<Rightarrow> int \<Rightarrow> 'c state \<Rightarrow> (error + unit) \<times> 'c state" where
  "rollback idx lbl now s =
     (let v = self s in
      if var_frozen v then
        (Inl (FrozenError (''Variable '' @ quoted (var_name v) @ '' is frozen and cannot be rolled back.'')), s)
      else if idx < 0 \<or> idx \<ge> int (length (var_history v)) then
        (Inl (RollbackError (''Rollback index '' @ str idx @ '' is out of range [0, ''
                 @ str (int (length (var_history v)) - 1) @ ''] for variable ''
                 @ quoted (var_name v) @ ''.'')), s)
      else
        (let target_value = val (var_history v ! nat idx);
             (h', snap) = snapshot (var_deep_copy v) (heap s) target_value
         in set_var snap (Some (rollback_label idx lbl)) now (s\<lparr>heap := h'\<rparr>)))"

definition freeze :: "'c state \<Rightarrow> 'c state" where
  "freeze s = s\<lparr>self := (self s)\<lparr>var_frozen := True\<rparr>\<rparr>"

definition thaw :: "'c state \<Rightarrow> 'c state" where
  "thaw s = s\<lparr>self := (self s)\<lparr>var_frozen := False\<rparr>\<rparr>"

definition add_validator :: "'c validator \<Rightarrow> 'c state \<Rightarrow> 'c state" where
  "add_validator fn s = s\<lparr>self := (self s)\<lparr>var_validators := var_validators (self s) @ [fn]\<rparr>\<rparr>"

definition add_listener :: "'c listener \<Rightarrow> 'c state \<Rightarrow> 'c state" where
  "add_listener fn s = s\<lparr>self := (self s)\<lparr>var_listeners := var_listeners (self s) @ [fn]\<rparr>\<rparr>"

definition reset :: "int \<Rightarrow> 'c state \<Rightarrow> (error + unit) \<times> 'c state" where
  "reset now s = rollback 0 (Some ''reset to initial'') now s"

subsection \<open>\<^verbatim>\<open>diff\<close>\<close>

text \<open>
  \<^verbatim>\<open>timedelta.total_seconds() * 1000\<close> and \<^verbatim>\<open>round(elapsed, 3)\<close> are computed on rationals,
  not on floats. \<open>py_round\<close> rounds to the nearest integer, a tie to the even one.
\<close>

definition total_seconds :: "int \<Rightarrow> rat" where
  "total_seconds micros = of_int micros / 1000000"

definition py_round :: "rat \<Rightarrow> int" where
  "py_round x =
     (let f = \<lfloor>x\<rfloor>; d = x - of_int f
      in if d < 1 / 2 then f else if 1 / 2 < d then f + 1 else if even f then f else f + 1)"

definition round3 :: "rat \<Rightarrow> rat" where
  "round3 x = of_int (py_round (x * 1000)) / 1000"

record DiffEntry =
  from_index :: int
  to_index :: int
  from_value :: addr
  to_value :: addr
  elapsed_ms :: rat

definition diff_entry :: "ChangeRecord \<Rightarrow> ChangeRecord \<Rightarrow> DiffEntry" where
  "diff_entry prev cur =
     (let elapsed = total_seconds (timestamp cur - timestamp prev) * 1000
      in \<lparr>from_index = index prev, to_index = index cur,
          from_value = val prev, to_value = val cur,
          elapsed_ms = round3 elapsed\<rparr>)"

definition diff :: "'c AlmaVar \<Rightarrow> DiffEntry list" where
  "diff v =
     (let records = history v
      in map (\<lambda>i. diff_entry (records ! (i - 1)) (records ! i)) [1 ..< length records])"

subsection \<open>\<^verbatim>\<open>AlmaRegistry\<close>\<close>




subsection \<open>Sequences of calls\<close>

text \<open>The calls a client makes on one variable, each \<^verbatim>\<open>set\<close>, \<^verbatim>\<open>rollback\<close> and \<^verbatim>\<open>reset\<close> with
  the reading of the clock at that call.\<close>

datatype 'c call =
    Set addr "string option" int
  | Rollback int "string option" int
  | Reset int
  | Freeze
  | Thaw
  | AddValidator "'c validator"
  | AddListener "'c listener"

fun step :: "'c call \<Rightarrow> 'c state \<Rightarrow> (error + unit) \<times> 'c state" where
  "step (Set x lbl now) s = set_var x lbl now s"
| "step (Rollback idx lbl now) s = rollback idx lbl now s"
| "step (Reset now) s = reset now s"
| "step Freeze s = (Inr (), freeze s)"
| "step Thaw s = (Inr (), thaw s)"
| "step (AddValidator fn) s = (Inr (), add_validator fn s)"
| "step (AddListener fn) s = (Inr (), add_listener fn s)"

fun appends :: "'c call \<Rightarrow> bool" where
  "appends (Set _ _ _) = True"
| "appends (Rollback _ _ _) = True"
| "appends (Reset _) = True"
| "appends _ = False"

text \<open>\<open>run\<close> makes the calls in order, a failed one leaving the next to go on, and counts
  the \<^verbatim>\<open>set\<close>, \<^verbatim>\<open>rollback\<close> and \<^verbatim>\<open>reset\<close> calls that returned.\<close>

fun run :: "'c call list \<Rightarrow> 'c state \<Rightarrow> nat \<times> 'c state" where
  "run [] s = (0, s)"
| "run (c # cs) s =
     (let (res, s') = step c s;
          (n, s'') = run cs s'
      in ((if appends c \<and> \<not> isl res then 1 else 0) + n, s''))"

text \<open>The readings of the clock a call consumes when it appends a record.\<close>

fun clock_reading :: "'c call \<Rightarrow> int list" where
  "clock_reading (Set _ _ now) = [now]"
| "clock_reading (Rollback _ _ now) = [now]"
| "clock_reading (Reset now) = [now]"
| "clock_reading _ = []"

definition created ::
  "string \<Rightarrow> addr \<Rightarrow> bool \<Rightarrow> 'c validator list option \<Rightarrow> 'c listener list option \<Rightarrow> int
     \<Rightarrow> 'c heap \<Rightarrow> 'c state" where
  "created name initial_value deep_copy validators on_change now h =
     (let (h', var) = init name initial_value deep_copy validators on_change now h
      in \<lparr>heap = h', self = var, trace = []\<rparr>)"

subsection \<open>Growth of the history\<close>

text \<open>\<open>grows_by old new n\<close>: the history \<open>new\<close> is \<open>old\<close> with \<open>n\<close> records appended, each
  numbered with its position.\<close>

definition grows_by :: "ChangeRecord list \<Rightarrow> ChangeRecord list \<Rightarrow> nat \<Rightarrow> bool" where
  "grows_by old new n =
     (\<exists>ext. new = old @ ext \<and> length ext = n \<and>
        (\<forall>k < n. index (ext ! k) = int (length old + k)))"

subsection \<open>Example values\<close>

text \<open>Validators and listeners in the style of the test suite, and a variable built
  from them. The store holds two copyable objects and one on which a deep copy raises.\<close>

definition must_be_positive :: "int validator" where
  "must_be_positive c = (if c < 0 then Some ''negative'' else None)"

definition must_be_small :: "int validator" where
  "must_be_small c = (if 100 < c then Some ''too large'' else None)"

definition bad_listener :: "int listener" where
  "bad_listener h hist r = Raised"

definition quiet_listener :: "int listener" where
  "quiet_listener h hist r = Returned"

definition example_heap :: "int heap" where
  "example_heap = [PyObj True 0, PyObj True (- 1), PyObj False 7]"

definition example_state :: "int state" where
  "example_state =
     created ''x'' 0 True (Some [must_be_small, must_be_positive])
       (Some [bad_listener, quiet_listener]) 10 example_heap"

definition example_negative :: "int state" where
  "example_negative = created ''debt'' 1 True (Some [must_be_positive]) None 10 example_heap"

definition example_calls :: "int call list" where
  "example_calls =
     [Set 2 None 20, Set 1 None 30, Rollback 0 None 40, Freeze, Reset 50, Thaw, Reset 60]"




section \<open>Properties\<close>

subsection \<open>Auxiliary facts\<close>

subsubsection \<open>The example variable and the store\<close>

lemma example_state_eq:
  "example_state =
     \<lparr>heap = [PyObj True 0, PyObj True (- 1), PyObj False 7, PyObj True 0],
      self = \<lparr>var_name = ''x'', var_deep_copy = True,
               var_validators = [must_be_small, must_be_positive],
               var_listeners = [bad_listener, quiet_listener],
               var_frozen = False,
               var_history = [\<lparr>index = 0, val = 3, timestamp = 10, label = Some ''initial''\<rparr>]\<rparr>,
      trace = []\<rparr>"
  by (simp add: example_state_def created_def init_def snapshot_def deepcopy_def example_heap_def)

lemma snapshot_contents:
  "snapshot dc h x = (h', a) \<Longrightarrow> contents (h' ! a) = contents (h ! x)"
  by (auto simp: snapshot_def deepcopy_def split: if_splits)

subsubsection \<open>The two loops\<close>

lemma fire_listeners_heap [simp]: "heap (fire_listeners ls r s) = heap s"
  by (induction ls arbitrary: s) (auto simp: Let_def split: outcome.splits)

lemma fire_listeners_self [simp]: "self (fire_listeners ls r s) = self s"
  by (induction ls arbitrary: s) (auto simp: Let_def split: outcome.splits)

lemma fire_listeners_trace:
  "trace (fire_listeners ls r s) =
     trace s @ map (\<lambda>l. Notified r (l (heap s) (var_history (self s)) r)) ls"
  by (induction ls arbitrary: s) (auto simp: Let_def split: outcome.splits)

lemma run_validators_accept:
  "\<forall>f \<in> set vs. f c = None \<Longrightarrow> run_validators vs c = (map (\<lambda>f. Validated None) vs, None)"
  by (induction vs) auto


lemma length_diff: "length (diff v) = length (var_history v) - 1"
  by (simp add: diff_def history_def Let_def)

lemma example_negative_eq:
  "example_negative =
     \<lparr>heap = [PyObj True 0, PyObj True (- 1), PyObj False 7, PyObj True (- 1)],
      self = \<lparr>var_name = ''debt'', var_deep_copy = True,
               var_validators = [must_be_positive],
               var_listeners = [],
               var_frozen = False,
               var_history = [\<lparr>index = 0, val = 3, timestamp = 10, label = Some ''initial''\<rparr>]\<rparr>,
      trace = []\<rparr>"
  by (simp add: example_negative_def created_def init_def snapshot_def deepcopy_def example_heap_def)

subsubsection \<open>Calls that return and calls that raise\<close>

lemma set_var_accept:
  assumes "\<not> var_frozen (self s)"
    and "\<forall>validate \<in> set (var_validators (self s)). validate (contents (heap s ! x)) = None"
    and "snapshot (var_deep_copy (self s)) (heap s) x = (h', a)"
    and "r = \<lparr>index = int (length (var_history (self s))), val = a, timestamp = now, label = lbl\<rparr>"
  shows "set_var x lbl now s =
           (Inr (),
            s\<lparr>heap := h',
              self := (self s)\<lparr>var_history := var_history (self s) @ [r]\<rparr>,
              trace := trace s @ map (\<lambda>validate. Validated None) (var_validators (self s))
                 @ map (\<lambda>listener. Notified r (listener h' (var_history (self s) @ [r]) r))
                     (var_listeners (self s))\<rparr>)"
proof -
  have rv: "run_validators (var_validators (self s)) (contents (heap s ! x)) =
          (map (\<lambda>validate. Validated None) (var_validators (self s)), None)"
    using assms(2) by (rule run_validators_accept)
  show ?thesis
    using assms(1,3,4)
    by (simp add: set_var_def rv Let_def fire_listeners_trace)
qed

lemma run_validators_None:
  "run_validators vs c = (evs, None) \<Longrightarrow> \<forall>f \<in> set vs. f c = None"
  by (induction vs arbitrary: evs) (auto split: option.splits prod.splits)

lemma set_var_Inr:
  assumes "set_var x lbl now s = (Inr u, s')"
  shows "\<not> var_frozen (self s) \<and>
         (\<forall>validate \<in> set (var_validators (self s)). validate (contents (heap s ! x)) = None)"
  using assms
  by (auto simp: set_var_def Let_def split: if_splits prod.splits option.splits
      dest: run_validators_None)

lemma set_var_Inl:
  "set_var x lbl now s = (Inl e, s') \<Longrightarrow> self s' = self s \<and> heap s' = heap s"
  by (auto simp: set_var_def Let_def split: if_splits prod.splits option.splits)

lemma get_snoc:
  assumes "var_history v = hs @ [r]"
  shows "get v = Inr (val r)"
proof -
  from assms have "last (var_history v) = r" and "var_history v \<noteq> []"
    by simp_all
  then show ?thesis
    by (cases "var_history v") (simp_all add: get_def)
qed

lemma rollback_in_range:
  assumes "\<not> var_frozen (self s)" and "0 \<le> idx" and "idx < int (length (var_history (self s)))"
    and "snapshot (var_deep_copy (self s)) (heap s) (val (var_history (self s) ! nat idx)) = (h1, a1)"
  shows "rollback idx lbl now s = set_var a1 (Some (rollback_label idx lbl)) now (s\<lparr>heap := h1\<rparr>)"
  using assms by (simp add: rollback_def Let_def)

lemma rollback_Inr:
  assumes "rollback idx lbl now s = (Inr u, s')"
  shows "\<not> var_frozen (self s) \<and> 0 \<le> idx \<and> idx < int (length (var_history (self s)))"
  using assms by (auto simp: rollback_def Let_def split: if_splits)

lemma example_rollback:
  "rollback 0 None 20 example_state =
     (Inr (),
      \<lparr>heap = [PyObj True 0, PyObj True (- 1), PyObj False 7, PyObj True 0, PyObj True 0, PyObj True 0],
       self = \<lparr>var_name = ''x'', var_deep_copy = True,
                var_validators = [must_be_small, must_be_positive],
                var_listeners = [bad_listener, quiet_listener],
                var_frozen = False,
                var_history =
                  [\<lparr>index = 0, val = 3, timestamp = 10, label = Some ''initial''\<rparr>,
                   \<lparr>index = 1, val = 5, timestamp = 20, label = Some ''rollback to index 0''\<rparr>]\<rparr>,
       trace =
         [Validated None, Validated None,
          Notified \<lparr>index = 1, val = 5, timestamp = 20, label = Some ''rollback to index 0''\<rparr> Raised,
          Notified \<lparr>index = 1, val = 5, timestamp = 20, label = Some ''rollback to index 0''\<rparr> Returned]\<rparr>)"
  by (simp add: example_state_eq rollback_def set_var_def snapshot_def deepcopy_def
      rollback_label_def str_def digits.simps must_be_small_def must_be_positive_def
      bad_listener_def quiet_listener_def Let_def)

lemma rollback_accept:
  assumes nf: "\<not> var_frozen (self s)" and lo: "0 \<le> idx"
    and hi: "idx < int (length (var_history (self s)))"
    and ok: "\<forall>validate \<in> set (var_validators (self s)).
               validate (contents (heap s ! val (var_history (self s) ! nat idx))) = None"
  shows "fst (rollback idx lbl now s) = Inr () \<and>
         (\<exists>a. get (self (snd (rollback idx lbl now s))) = Inr a \<and>
              contents (heap (snd (rollback idx lbl now s)) ! a) =
                contents (heap s ! val (var_history (self s) ! nat idx)))"
proof -
  obtain h1 a1 where s1:
    "snapshot (var_deep_copy (self s)) (heap s) (val (var_history (self s) ! nat idx)) = (h1, a1)"
    by (cases "snapshot (var_deep_copy (self s)) (heap s) (val (var_history (self s) ! nat idx))")
  let ?s1 = "s\<lparr>heap := h1\<rparr>"
  let ?lbl = "Some (rollback_label idx lbl)"
  have c1: "contents (h1 ! a1) = contents (heap s ! val (var_history (self s) ! nat idx))"
    using s1 snapshot_contents by fastforce
  obtain h2 a2 where s2: "snapshot (var_deep_copy (self ?s1)) (heap ?s1) a1 = (h2, a2)"
    by (cases "snapshot (var_deep_copy (self ?s1)) (heap ?s1) a1")
  have c2: "contents (h2 ! a2) = contents (h1 ! a1)"
    using s2 snapshot_contents by fastforce
  let ?r = "\<lparr>index = int (length (var_history (self ?s1))), val = a2, timestamp = now, label = ?lbl\<rparr>"
  have nf1: "\<not> var_frozen (self ?s1)" using nf by simp
  have ok1: "\<forall>validate \<in> set (var_validators (self ?s1)). validate (contents (heap ?s1 ! a1)) = None"
    using ok c1 by simp
  have rb: "rollback idx lbl now s = set_var a1 ?lbl now ?s1"
    by (rule rollback_in_range [OF nf lo hi s1])
  note acc = set_var_accept [OF nf1 ok1 s2, of ?r now ?lbl]
  have res: "fst (rollback idx lbl now s) = Inr ()"
    by (simp add: rb acc)
  have hist: "var_history (self (snd (rollback idx lbl now s))) = var_history (self s) @ [?r]"
    by (simp add: rb acc)
  have heap': "heap (snd (rollback idx lbl now s)) = h2"
    by (simp add: rb acc)
  have "get (self (snd (rollback idx lbl now s))) = Inr a2"
    using get_snoc [OF hist] by simp
  with res heap' c1 c2 show ?thesis by simp
qed

subsubsection \<open>Records are appended and numbered\<close>

lemma grows_by_refl: "grows_by hs hs 0"
  by (simp add: grows_by_def)

lemma grows_by_one: "index r = int (length hs) \<Longrightarrow> grows_by hs (hs @ [r]) (Suc 0)"
  by (simp add: grows_by_def)

lemma grows_by_trans:
  assumes "grows_by a b m" and "grows_by b c n"
  shows "grows_by a c (m + n)"
proof -
  from assms(1) obtain e1 where e1: "b = a @ e1" "length e1 = m"
    "\<forall>k < m. index (e1 ! k) = int (length a + k)"
    by (auto simp: grows_by_def)
  from assms(2) obtain e2 where e2: "c = b @ e2" "length e2 = n"
    "\<forall>k < n. index (e2 ! k) = int (length b + k)"
    by (auto simp: grows_by_def)
  have "\<forall>k < m + n. index ((e1 @ e2) ! k) = int (length a + k)"
  proof (intro allI impI)
    fix k assume "k < m + n"
    show "index ((e1 @ e2) ! k) = int (length a + k)"
    proof (cases "k < m")
      case True
      with e1 show ?thesis by (simp add: nth_append)
    next
      case False
      with \<open>k < m + n\<close> have "k - m < n" by simp
      with e2(3) have "index (e2 ! (k - m)) = int (length b + (k - m))" by blast
      with False e1 show ?thesis by (simp add: nth_append)
    qed
  qed
  with e1 e2 show ?thesis
    unfolding grows_by_def by (intro exI [of _ "e1 @ e2"]) simp
qed

lemma set_var_history:
  "set_var x lbl now s = (res, s') \<Longrightarrow>
     grows_by (var_history (self s)) (var_history (self s')) (if isl res then 0 else 1)"
  by (auto simp: set_var_def Let_def grows_by_refl grows_by_one
      split: if_splits prod.splits option.splits)

lemma rollback_history:
  "rollback idx lbl now s = (res, s') \<Longrightarrow>
     grows_by (var_history (self s)) (var_history (self s')) (if isl res then 0 else 1)"
  by (auto simp: rollback_def Let_def grows_by_refl split: if_splits prod.splits
      dest!: set_var_history)

lemma step_history:
  "step c s = (res, s') \<Longrightarrow>
     grows_by (var_history (self s)) (var_history (self s'))
       (if appends c \<and> \<not> isl res then 1 else 0)"
  by (cases c)
    (auto simp: reset_def freeze_def thaw_def add_validator_def add_listener_def grows_by_refl
      dest!: set_var_history rollback_history split: if_splits)

lemma run_history:
  "run cs s = (n, s') \<Longrightarrow> grows_by (var_history (self s)) (var_history (self s')) n"
proof (induction cs arbitrary: s n s')
  case Nil
  then show ?case by (simp add: grows_by_refl)
next
  case (Cons c cs)
  obtain res s1 where st: "step c s = (res, s1)" by (cases "step c s")
  obtain m s2 where rn: "run cs s1 = (m, s2)" by (cases "run cs s1")
  from Cons.prems st rn have n: "n = (if appends c \<and> \<not> isl res then 1 else 0) + m" and "s' = s2"
    by simp_all
  with grows_by_trans [OF step_history [OF st] Cons.IH [OF rn]] show ?case by simp
qed


lemma created_history:
  "\<exists>a. var_history (self (created name x dc vs ls t0 h)) =
          [\<lparr>index = 0, val = a, timestamp = t0, label = Some ''initial''\<rparr>]"
  by (simp add: created_def init_def Let_def split: prod.splits)

lemma example_run_count: "fst (run example_calls example_state) = 3"
  by code_simp

lemma example_run_indices:
  "map index (history (self (snd (run example_calls example_state)))) = [0, 1, 2, 3]"
  by code_simp

subsubsection \<open>Durations\<close>

lemma py_round_of_int: "py_round (of_int d) = d"
  by (simp add: py_round_def)

lemma round3_millis: "round3 (total_seconds d * 1000) = of_int d / 1000"
  by (simp add: round3_def total_seconds_def py_round_of_int)


lemma diff_nth:
  "Suc k < length (var_history v) \<Longrightarrow>
     diff v ! k = diff_entry (var_history v ! k) (var_history v ! Suc k)"
  by (simp add: diff_def history_def Let_def)


subsubsection \<open>Copies and aliases\<close>










subsubsection \<open>The clock\<close>

text \<open>When the clock never goes back, the timestamps of the history are in order, and
  no entry of \<^verbatim>\<open>diff\<close> has a negative duration.\<close>

lemma set_var_timestamps:
  "set_var x lbl now s = (res, s') \<Longrightarrow>
     map timestamp (var_history (self s')) =
       map timestamp (var_history (self s)) @ (if isl res then [] else [now])"
  by (auto simp: set_var_def Let_def split: if_splits prod.splits option.splits)

lemma rollback_timestamps:
  "rollback idx lbl now s = (res, s') \<Longrightarrow>
     map timestamp (var_history (self s')) =
       map timestamp (var_history (self s)) @ (if isl res then [] else [now])"
  by (auto simp: rollback_def Let_def split: if_splits prod.splits dest!: set_var_timestamps)

lemma step_timestamps:
  "step c s = (res, s') \<Longrightarrow>
     map timestamp (var_history (self s')) =
       map timestamp (var_history (self s)) @ (if isl res then [] else clock_reading c)"
  by (cases c)
    (auto simp: reset_def freeze_def thaw_def add_validator_def add_listener_def
      dest!: set_var_timestamps rollback_timestamps split: if_splits)

lemma run_timestamps_sorted:
  "run cs s = (n, s') \<Longrightarrow>
     sorted (map timestamp (var_history (self s)) @ concat (map clock_reading cs)) \<Longrightarrow>
     sorted (map timestamp (var_history (self s')))"
proof (induction cs arbitrary: s n s')
  case Nil
  then show ?case by simp
next
  case (Cons c cs)
  obtain res s1 where st: "step c s = (res, s1)" by (cases "step c s")
  obtain m s2 where rn: "run cs s1 = (m, s2)" by (cases "run cs s1")
  from Cons.prems(1) st rn have s': "s' = s2" by simp
  from Cons.prems(2) step_timestamps [OF st]
  have "sorted (map timestamp (var_history (self s1)) @ concat (map clock_reading cs))"
    by (auto simp: sorted_append split: if_splits)
  from Cons.IH [OF rn this] s' show ?case by simp
qed

lemma diff_nonnegative:
  assumes "run cs (created name x dc vs ls t0 h) = (n, s)"
    and "sorted (t0 # concat (map clock_reading cs))"
  shows "\<forall>e \<in> set (diff (self s)). 0 \<le> elapsed_ms e"
proof -
  have "map timestamp (var_history (self (created name x dc vs ls t0 h))) = [t0]"
    by (simp add: created_def init_def Let_def split: prod.splits)
  with assms(2) run_timestamps_sorted [OF assms(1)]
  have srt: "sorted (map timestamp (var_history (self s)))"
    by simp
  show ?thesis
  proof
    fix e assume "e \<in> set (diff (self s))"
    then obtain k where k: "k < length (diff (self s))" and e: "e = diff (self s) ! k"
      by (auto simp: in_set_conv_nth)
    from k have sk: "Suc k < length (var_history (self s))"
      by (simp add: length_diff)
    with srt have "timestamp (var_history (self s) ! k) \<le> timestamp (var_history (self s) ! Suc k)"
      using sorted_nth_mono [of "map timestamp (var_history (self s))" k "Suc k"] by simp
    with sk e show "0 \<le> elapsed_ms e"
      by (simp add: diff_nth diff_entry_def Let_def round3_millis)
  qed
qed

subsection \<open>Validation failures\<close>




subsection \<open>Frozen variables\<close>

text \<open>
  Claim C6. On a frozen variable \<^verbatim>\<open>set\<close> and \<^verbatim>\<open>rollback\<close> raise \<open>FrozenError\<close> and leave the
  whole state, so the history and the current value, as it was; \<^verbatim>\<open>get\<close>, \<^verbatim>\<open>history\<close>,
  \<^verbatim>\<open>last_change\<close>, \<^verbatim>\<open>diff\<close> and \<^verbatim>\<open>is_frozen\<close> return their results. The history of a
  variable is never empty, which is the second hypothesis.
\<close>

theorem frozen_rejects_mutation:
  "var_frozen (self s) \<Longrightarrow> var_history (self s) \<noteq> [] \<Longrightarrow>
     set_var x lbl now s =
       (Inl (FrozenError (''Variable '' @ quoted (var_name (self s))
               @ '' is frozen and cannot be mutated.'')), s) \<and>
     rollback idx lbl now s =
       (Inl (FrozenError (''Variable '' @ quoted (var_name (self s))
               @ '' is frozen and cannot be rolled back.'')), s) \<and>
     get (self s) = Inr (val (last (var_history (self s)))) \<and>
     history (self s) = var_history (self s) \<and>
     last_change (self s) = Inr (last (var_history (self s))) \<and>
     length (diff (self s)) = length (var_history (self s)) - 1 \<and>
     is_frozen (self s)"
  by (simp add: set_var_def rollback_def get_def history_def last_change_def length_diff
      is_frozen_def split: list.splits)

theorem frozen_rejects_mutation_witness:
  "var_frozen (self (freeze example_state)) \<and> var_history (self (freeze example_state)) \<noteq> [] \<and>
   set_var 2 None 20 (freeze example_state) =
     (Inl (FrozenError (''Variable '' @ quoted ''x'' @ '' is frozen and cannot be mutated.'')),
      freeze example_state) \<and>
   rollback 0 None 20 (freeze example_state) =
     (Inl (FrozenError (''Variable '' @ quoted ''x'' @ '' is frozen and cannot be rolled back.'')),
      freeze example_state) \<and>
   get (self (freeze example_state)) = Inr 3 \<and>
   is_frozen (self (freeze example_state))"
  using frozen_rejects_mutation [of "freeze example_state" 2 None 20 0]
  by (simp add: example_state_eq freeze_def)

text \<open>
  Claim C10. \<^verbatim>\<open>rollback\<close> on a frozen variable raises \<open>FrozenError\<close> at every index, inside
  or outside the valid range: the frozen check comes before the range check.
\<close>

theorem rollback_frozen_before_range:
  "var_frozen (self s) \<Longrightarrow>
     rollback idx lbl now s =
       (Inl (FrozenError (''Variable '' @ quoted (var_name (self s))
               @ '' is frozen and cannot be rolled back.'')), s)"
  by (simp add: rollback_def)

theorem rollback_frozen_before_range_witness:
  "var_frozen (self (freeze example_state)) \<and>
   \<not> (0 \<le> (5::int) \<and> 5 < int (length (var_history (self (freeze example_state))))) \<and>
   rollback 5 None 20 (freeze example_state) =
     (Inl (FrozenError (''Variable '' @ quoted ''x'' @ '' is frozen and cannot be rolled back.'')),
      freeze example_state)"
  using rollback_frozen_before_range [of "freeze example_state" 5 None 20]
  by (simp add: example_state_eq freeze_def)

subsection \<open>Listeners\<close>



subsection \<open>Rollback\<close>

text \<open>
  Claim C4. A \<^verbatim>\<open>rollback\<close> to index \<open>idx\<close> without a label that returns normally was given
  an index inside the history; the history afterwards is the one before with exactly
  one record appended, labelled \<open>rollback to index idx\<close>; and \<^verbatim>\<open>get\<close> then returns a
  value with the contents of the value stored at index \<open>idx\<close>.
\<close>

theorem rollback_appends_record:
  assumes "rollback idx None now s = (Inr (), s')"
  shows "0 \<le> idx \<and> idx < int (length (history (self s))) \<and>
         (\<exists>a. history (self s') =
                 history (self s) @
                   [\<lparr>index = int (length (history (self s))), val = a, timestamp = now,
                     label = Some (''rollback to index '' @ str idx)\<rparr>] \<and>
              get (self s') = Inr a \<and>
              contents (heap s' ! a) = contents (heap s ! val (history (self s) ! nat idx)))"
proof -
  from assms have nf: "\<not> var_frozen (self s)" and lo: "0 \<le> idx"
    and hi: "idx < int (length (var_history (self s)))"
    using rollback_Inr by blast+
  obtain h1 a1 where s1:
    "snapshot (var_deep_copy (self s)) (heap s) (val (var_history (self s) ! nat idx)) = (h1, a1)"
    by (cases "snapshot (var_deep_copy (self s)) (heap s) (val (var_history (self s) ! nat idx))")
  let ?s1 = "s\<lparr>heap := h1\<rparr>"
  let ?lbl = "Some (rollback_label idx None)"
  from rollback_in_range [OF nf lo hi s1] assms
  have set1: "set_var a1 ?lbl now ?s1 = (Inr (), s')" by simp
  obtain h2 a2 where s2: "snapshot (var_deep_copy (self ?s1)) (heap ?s1) a1 = (h2, a2)"
    by (cases "snapshot (var_deep_copy (self ?s1)) (heap ?s1) a1")
  let ?r = "\<lparr>index = int (length (var_history (self ?s1))), val = a2, timestamp = now, label = ?lbl\<rparr>"
  from set_var_Inr [OF set1]
  have nf1: "\<not> var_frozen (self ?s1)"
    and ok: "\<forall>validate \<in> set (var_validators (self ?s1)). validate (contents (heap ?s1 ! a1)) = None"
    by blast+
  from set_var_accept [OF nf1 ok s2, of ?r now ?lbl] set1
  have s': "s' = ?s1\<lparr>heap := h2,
              self := (self ?s1)\<lparr>var_history := var_history (self ?s1) @ [?r]\<rparr>,
              trace := trace ?s1 @ map (\<lambda>validate. Validated None) (var_validators (self ?s1))
                 @ map (\<lambda>listener. Notified ?r (listener h2 (var_history (self ?s1) @ [?r]) ?r))
                     (var_listeners (self ?s1))\<rparr>"
    by simp
  have hist: "var_history (self s') = var_history (self s) @ [?r]"
    by (subst s') simp
  have heap': "heap s' = h2" by (subst s') simp
  have c2: "contents (h2 ! a2) = contents (h1 ! a1)"
    using s2 snapshot_contents by fastforce
  have c1: "contents (h1 ! a1) = contents (heap s ! val (var_history (self s) ! nat idx))"
    using s1 snapshot_contents by fastforce
  have "get (self s') = Inr a2"
    using get_snoc [OF hist] by simp
  with hist heap' c1 c2 lo hi show ?thesis
    by (simp add: history_def rollback_label_def)
qed

theorem rollback_appends_record_witness:
  "rollback 0 None 20 example_state = (Inr (), snd (rollback 0 None 20 example_state)) \<and>
   history (self (snd (rollback 0 None 20 example_state))) =
     history (self example_state) @
       [\<lparr>index = 1, val = 5, timestamp = 20, label = Some ''rollback to index 0''\<rparr>] \<and>
   get (self (snd (rollback 0 None 20 example_state))) = Inr 5 \<and>
   contents (heap (snd (rollback 0 None 20 example_state)) ! 5) =
     contents (heap example_state ! val (history (self example_state) ! 0))"
  using rollback_appends_record [of 0 20 example_state "snd (rollback 0 None 20 example_state)"]
  by (simp add: example_rollback) (simp add: example_state_eq history_def get_def)

text \<open>
  Claim C5, with the success of the last part made conditional. On a variable that is
  not frozen and has a history of length \<open>n\<close>, \<^verbatim>\<open>rollback(-1)\<close> and \<^verbatim>\<open>rollback(n)\<close> raise
  \<open>RollbackError\<close> and leave the state as it was. \<^verbatim>\<open>rollback(n - 1)\<close> goes through \<^verbatim>\<open>set\<close>,
  which runs the validators on the current value: when all of them accept it, the call
  returns normally and \<^verbatim>\<open>get\<close> returns a value with the same contents as before.
\<close>

theorem rollback_boundaries:
  assumes "\<not> var_frozen (self s)" and "n = int (length (history (self s)))"
  shows "rollback (- 1) lbl now s =
           (Inl (RollbackError (''Rollback index '' @ str (- 1) @ '' is out of range [0, ''
                   @ str (n - 1) @ ''] for variable '' @ quoted (var_name (self s)) @ ''.'')), s) \<and>
         rollback n lbl now s =
           (Inl (RollbackError (''Rollback index '' @ str n @ '' is out of range [0, ''
                   @ str (n - 1) @ ''] for variable '' @ quoted (var_name (self s)) @ ''.'')), s) \<and>
         (\<forall>current.
            get (self s) = Inr current \<and>
            (\<forall>validate \<in> set (var_validators (self s)). validate (contents (heap s ! current)) = None)
            \<longrightarrow> fst (rollback (n - 1) lbl now s) = Inr () \<and>
                (\<exists>a. get (self (snd (rollback (n - 1) lbl now s))) = Inr a \<and>
                     contents (heap (snd (rollback (n - 1) lbl now s)) ! a) =
                       contents (heap s ! current)))"
proof (intro conjI allI impI)
  show "rollback (- 1) lbl now s =
           (Inl (RollbackError (''Rollback index '' @ str (- 1) @ '' is out of range [0, ''
                   @ str (n - 1) @ ''] for variable '' @ quoted (var_name (self s)) @ ''.'')), s)"
    using assms by (simp add: rollback_def history_def Let_def)
  show "rollback n lbl now s =
           (Inl (RollbackError (''Rollback index '' @ str n @ '' is out of range [0, ''
                   @ str (n - 1) @ ''] for variable '' @ quoted (var_name (self s)) @ ''.'')), s)"
    using assms by (simp add: rollback_def history_def Let_def)
next
  fix current
  assume h: "get (self s) = Inr current \<and>
     (\<forall>validate \<in> set (var_validators (self s)). validate (contents (heap s ! current)) = None)"
  then have ne: "var_history (self s) \<noteq> []"
    by (auto simp: get_def)
  with h have cur: "current = val (last (var_history (self s)))"
    by (auto simp: get_def split: list.splits)
  from ne assms(2) have lo: "0 \<le> n - 1" and hi: "n - 1 < int (length (var_history (self s)))"
    by (simp_all add: history_def)
  from ne assms(2) have "nat (n - 1) = length (var_history (self s)) - 1"
    by (simp add: history_def)
  with ne have tgt: "var_history (self s) ! nat (n - 1) = last (var_history (self s))"
    by (simp add: last_conv_nth)
  from h cur tgt
  have ok: "\<forall>validate \<in> set (var_validators (self s)).
              validate (contents (heap s ! val (var_history (self s) ! nat (n - 1)))) = None"
    by simp
  from rollback_accept [OF assms(1) lo hi ok, of lbl now] cur tgt
  show "fst (rollback (n - 1) lbl now s) = Inr ()"
    and "\<exists>a. get (self (snd (rollback (n - 1) lbl now s))) = Inr a \<and>
             contents (heap (snd (rollback (n - 1) lbl now s)) ! a) = contents (heap s ! current)"
    by simp_all
qed

theorem rollback_boundaries_witness:
  "\<not> var_frozen (self example_state) \<and>
   fst (rollback (- 1) None 20 example_state) =
     Inl (RollbackError (''Rollback index -1 is out of range [0, 0] for variable '' @ quoted ''x'' @ ''.'')) \<and>
   snd (rollback (- 1) None 20 example_state) = example_state \<and>
   fst (rollback 1 None 20 example_state) =
     Inl (RollbackError (''Rollback index 1 is out of range [0, 0] for variable '' @ quoted ''x'' @ ''.'')) \<and>
   snd (rollback 1 None 20 example_state) = example_state \<and>
   get (self example_state) = Inr 3 \<and>
   map (\<lambda>validate. validate (contents (heap example_state ! 3)))
     (var_validators (self example_state)) = [None, None] \<and>
   fst (rollback 0 None 20 example_state) = Inr () \<and>
   (\<exists>a. get (self (snd (rollback 0 None 20 example_state))) = Inr a \<and>
        contents (heap (snd (rollback 0 None 20 example_state)) ! a) = 0)"
proof -
  have nf: "\<not> var_frozen (self example_state)"
    by (simp add: example_state_eq)
  have n: "(1::int) = int (length (history (self example_state)))"
    by (simp add: example_state_eq history_def)
  have g: "get (self example_state) = Inr 3"
    by (simp add: example_state_eq get_def)
  have ok: "\<forall>validate \<in> set (var_validators (self example_state)).
              validate (contents (heap example_state ! 3)) = None"
    by (simp add: example_state_eq must_be_small_def must_be_positive_def)
  have c: "contents (heap example_state ! 3) = 0"
    by (simp add: example_state_eq)
  have nm: "var_name (self example_state) = ''x''"
    by (simp add: example_state_eq)
  have st: "str (- 1) = ''-1''" "str 1 = ''1''" "str 0 = ''0''"
    by (simp_all add: str_def digits.simps)
  have oks: "map (\<lambda>validate. validate (contents (heap example_state ! 3)))
               (var_validators (self example_state)) = [None, None]"
    by (simp add: example_state_eq must_be_small_def must_be_positive_def)
  from rollback_boundaries [OF nf n, of None 20] g ok c nm st nf oks
  show ?thesis by simp
qed

text \<open>A variable whose initial value the validator rejects (the constructor runs no
  validator): \<^verbatim>\<open>rollback\<close> to the last index raises the validator's error.\<close>

theorem rollback_last_counterexample:
  "\<not> var_frozen (self example_negative) \<and>
   int (length (history (self example_negative))) - 1 = 0 \<and>
   fst (rollback 0 None 20 example_negative) = Inl (ValueError ''negative'') \<and>
   history (self (snd (rollback 0 None 20 example_negative))) = history (self example_negative)"
  by (simp add: example_negative_eq rollback_def set_var_def snapshot_def deepcopy_def
      must_be_positive_def history_def Let_def)

subsection \<open>The history\<close>

text \<open>
  Claim C3. Take a variable as its constructor leaves it and make any sequence of calls
  on it, \<open>n\<close> of its \<^verbatim>\<open>set\<close>, \<^verbatim>\<open>rollback\<close> and \<^verbatim>\<open>reset\<close> calls returning normally. Then its
  history has at least one record, the first record is labelled \<open>initial\<close>, the history
  has length \<open>1 + n\<close>, and the index of every record is its position.
\<close>

theorem history_invariant:
  assumes "run cs (created name x dc vs ls t0 h) = (n, s)"
  shows "1 \<le> length (history (self s)) \<and>
         label (history (self s) ! 0) = Some ''initial'' \<and>
         length (history (self s)) = 1 + n \<and>
         (\<forall>k < length (history (self s)). index (history (self s) ! k) = int k)"
proof -
  obtain a where h0: "var_history (self (created name x dc vs ls t0 h)) =
      [\<lparr>index = 0, val = a, timestamp = t0, label = Some ''initial''\<rparr>]"
    using created_history by blast
  from run_history [OF assms] h0 obtain ext where
    ext: "var_history (self s) = \<lparr>index = 0, val = a, timestamp = t0, label = Some ''initial''\<rparr> # ext"
      "length ext = n" "\<forall>k < n. index (ext ! k) = int (1 + k)"
    by (auto simp: grows_by_def)
  have "\<forall>k < length (var_history (self s)). index (var_history (self s) ! k) = int k"
  proof (intro allI impI)
    fix k assume k: "k < length (var_history (self s))"
    show "index (var_history (self s) ! k) = int k"
    proof (cases k)
      case 0
      with ext show ?thesis by simp
    next
      case (Suc j)
      with k ext have "j < n" by simp
      with ext(3) have "index (ext ! j) = int (1 + j)" by blast
      with Suc ext show ?thesis by simp
    qed
  qed
  with ext show ?thesis by (simp add: history_def)
qed


theorem history_invariant_witness:
  "run example_calls (created ''x'' 0 True (Some [must_be_small, must_be_positive])
       (Some [bad_listener, quiet_listener]) 10 example_heap) =
     (3, snd (run example_calls example_state)) \<and>
   length (history (self (snd (run example_calls example_state)))) = 4 \<and>
   label (history (self (snd (run example_calls example_state))) ! 0) = Some ''initial'' \<and>
   map index (history (self (snd (run example_calls example_state)))) = [0, 1, 2, 3]"
proof -
  have r: "run example_calls (created ''x'' 0 True (Some [must_be_small, must_be_positive])
       (Some [bad_listener, quiet_listener]) 10 example_heap) =
     (3, snd (run example_calls example_state))"
    using example_run_count by (simp add: example_state_def [symmetric] prod_eq_iff)
  from history_invariant [OF r] r example_run_indices show ?thesis
    by simp
qed

subsection \<open>Differences\<close>



subsection \<open>The registry\<close>



subsection \<open>Copy on store\<close>




end
